theory Spec2Isabelle
  imports Main
begin

section \<open>The request executor of \<open>app/javascript/utils/request.ts\<close>\<close>

text \<open>
  The module exports one asynchronous function, \<open>request\<close>, three error classes and the
  assertion \<open>assertResponseError\<close>. The embedding below follows the source line by line.

  \<^item> The descriptor \<open>RequestSettings\<close> is a record; the union on \<open>method\<close> is flattened
    (the field is \<open>http_method\<close> here, \<open>method\<close> being a keyword of Isabelle):
    the field \<open>data\<close> is present in the record for every method and is not read for GET,
    as in the source.
  \<^item> The platform is a parameter (\<open>platform\<close>): what \<open>JSON.stringify\<close> returns on a
    record, the headers held by the exported mutable object \<open>defaults\<close>, and, for every
    attempt index, what \<open>userSignal.aborted\<close> reads at line 74, how \<open>fetch\<close> settles at
    line 86 and what \<open>userSignal.aborted\<close> reads at line 105. Every execution of the
    source in which each \<open>fetch\<close> settles is the run of the model on one such platform.
  \<^item> The effects are explicit: the process-wide counter \<open>__activeRequests\<close> and the
    sequence of platform calls made (listeners, timers, fetches, sleeps) are the fields
    of \<open>world\<close>, threaded through every function.
  \<^item> A \<open>throw\<close> is the left injection of a sum; the \<open>while\<close> loop is a recursive function
    on the attempt index.
  \<^item> Milliseconds and HTTP statuses are integers (\<open>int\<close>, \<open>nat\<close>). \<open>JSON.stringify\<close> is
    taken to return, a string or \<open>undefined\<close>: a payload on which it throws (a cyclic
    record) is outside the model. Of the object \<open>defaults\<close> only the headers are kept,
    and of the second argument of \<open>fetch\<close> the url, the method, the body and the headers.
\<close>

subsection \<open>Data\<close>

datatype http_method = GET | POST | PUT | PATCH | DELETE

datatype accept = json | html | csv

text \<open>\<open>settings.data\<close>: absent, a record, or a multipart form.\<close>

datatype ('r, 'f) payload = Undefined | Record 'r | FormData 'f

text \<open>An \<open>AbortSignal\<close> object is a handle; its \<open>aborted\<close> flag belongs to the platform.\<close>

type_synonym AbortSignal = nat

record ('r, 'f) RequestSettings =
  accept :: accept
  url :: string
  abortSignal :: "AbortSignal option"
  timeoutMs :: "int option"
  http_method :: http_method
  data :: "('r, 'f) payload"

text \<open>The three exported error classes, with the message each constructor passes on.\<close>

datatype error = AbortError | TimeoutError | ResponseError string

fun message :: "error \<Rightarrow> string" where
  "message AbortError = ''Request aborted''"
| "message TimeoutError = ''Request timed out''"
| "message (ResponseError m) = m"

text \<open>\<open>new ResponseError()\<close>: the constructor's default argument.\<close>

definition new_ResponseError :: error where
  "new_ResponseError = ResponseError ''Something went wrong.''"

text \<open>
  A value of type \<open>unknown\<close>, as caught by \<open>catch (e: unknown)\<close>: an instance of one of
  the module's classes, a \<open>DOMException\<close> with its \<open>name\<close>, a \<open>TypeError\<close>, or anything else.
\<close>

datatype unknown = Error error | DOMException string | TypeError | OtherValue nat

fun instanceof_ResponseError :: "unknown \<Rightarrow> bool" where
  "instanceof_ResponseError (Error (ResponseError m)) = True"
| "instanceof_ResponseError e = False"

text \<open>Lines 26 to 28: the assertion returns, or throws its argument.\<close>

definition assertResponseError :: "unknown \<Rightarrow> unknown + unit" where
  "assertResponseError e = (if \<not> instanceof_ResponseError e then Inl e else Inr ())"

text \<open>The value of the constant \<open>data\<close> of lines 43 to 48, passed to \<open>fetch\<close> as \<open>body\<close>.\<close>

datatype 'f body = Null | UndefinedBody | Text string | Form 'f

text \<open>
  \<open>Headers\<close> keeps one value per header name and compares names without case: the map
  is keyed by the lower-case name.
\<close>

type_synonym headers = "string \<rightharpoonup> string"

record Response =
  status :: nat
  content :: string

datatype fetch_result = Resolves Response | Rejects unknown

record 'r platform =
  stringify :: "'r \<Rightarrow> string option"
  defaults_headers :: headers
  aborted_at_start :: "nat \<Rightarrow> bool"
  fetch :: "nat \<Rightarrow> fetch_result"
  aborted_in_catch :: "nat \<Rightarrow> bool"

text \<open>Line 36: \<open>defaults\<close> is the empty object when the module is loaded.\<close>

definition defaults :: headers where
  "defaults = Map.empty"

record 'f fetch_init =
  init_url :: string
  init_method :: http_method
  init_body :: "'f body"
  init_headers :: headers

datatype 'f event =
    AddListener
  | RemoveListener
  | SetTimeout int
  | ClearTimeout
  | Fetch "'f fetch_init"
  | Sleep int

record 'f world =
  activeRequests :: int
  trace :: "'f event list"

definition emit :: "'f event \<Rightarrow> 'f world \<Rightarrow> 'f world" where
  "emit ev w = w\<lparr>trace := trace w @ [ev]\<rparr>"

text \<open>Line 38: \<open>sleep\<close> resolves after \<open>ms\<close> milliseconds; the wait is recorded.\<close>

definition sleep :: "int \<Rightarrow> 'f world \<Rightarrow> 'f world" where
  "sleep ms w = emit (Sleep ms) w"

subsection \<open>Preparation, lines 43 to 61\<close>

fun JSON_stringify :: "('r \<Rightarrow> string option) \<Rightarrow> ('r, 'f) payload \<Rightarrow> 'f body" where
  "JSON_stringify js Undefined = UndefinedBody"
| "JSON_stringify js (Record r) = (case js r of None \<Rightarrow> UndefinedBody | Some t \<Rightarrow> Text t)"
| "JSON_stringify js (FormData f) = Text ''{}''"

text \<open>
  (A \<open>FormData\<close> object has no enumerable own property, so \<open>JSON.stringify\<close> gives
  \<open>{}\<close> for it; \<open>request\<close> never serializes one, by the test of line 46.)
\<close>

definition request_data :: "'r platform \<Rightarrow> ('r, 'f) RequestSettings \<Rightarrow> 'f body" where
  "request_data p settings =
     (if http_method settings = GET then Null
      else case data settings of
             FormData f \<Rightarrow> Form f
           | d \<Rightarrow> JSON_stringify (stringify p) d)"

fun acceptType :: "accept \<Rightarrow> string" where
  "acceptType json = ''application/json, text/html''"
| "acceptType html = ''text/html''"
| "acceptType csv = ''text/csv''"

text \<open>JavaScript truthiness of the body, and \<open>data instanceof FormData\<close>.\<close>

fun truthy :: "'f body \<Rightarrow> bool" where
  "truthy Null = False"
| "truthy UndefinedBody = False"
| "truthy (Text t) = (t \<noteq> [])"
| "truthy (Form f) = True"

fun instanceof_FormData :: "'f body \<Rightarrow> bool" where
  "instanceof_FormData (Form f) = True"
| "instanceof_FormData b = False"

definition request_headers :: "'r platform \<Rightarrow> ('r, 'f) RequestSettings \<Rightarrow> headers" where
  "request_headers p settings =
     (let h0 = defaults_headers p;
          h1 = h0(''accept'' \<mapsto> acceptType (accept settings))
      in if truthy (request_data p settings) \<and> \<not> instanceof_FormData (request_data p settings)
         then h1(''content-type'' \<mapsto> ''application/json'')
         else h1)"

definition maxAttempts :: "('r, 'f) RequestSettings \<Rightarrow> nat" where
  "maxAttempts settings = (if http_method settings = GET then 3 else 1)"

definition baseTimeout :: "('r, 'f) RequestSettings \<Rightarrow> int" where
  "baseTimeout settings = (case timeoutMs settings of Some t \<Rightarrow> t | None \<Rightarrow> 60000)"

text \<open>The second argument of \<open>fetch\<close>, lines 86 to 92.\<close>

definition fetch_args :: "'r platform \<Rightarrow> ('r, 'f) RequestSettings \<Rightarrow> 'f fetch_init" where
  "fetch_args p settings =
     \<lparr>init_url = url settings, init_method = http_method settings,
      init_body = request_data p settings, init_headers = request_headers p settings\<rparr>"

subsection \<open>One attempt, lines 65 to 130\<close>

text \<open>The test \<open>if (userSignal)\<close> on the optional field \<open>abortSignal\<close>.\<close>

definition present :: "'a option \<Rightarrow> bool" where
  "present x = (x \<noteq> None)"

text \<open>
  Lines 78 to 92 of an attempt whose signal is not yet aborted: the listener is attached
  when there is a signal, the timer is started with \<open>baseTimeout\<close>, \<open>fetch\<close> is called.
\<close>

definition start_attempt :: "'r platform \<Rightarrow> ('r, 'f) RequestSettings \<Rightarrow> 'f world \<Rightarrow> 'f world" where
  "start_attempt p settings w =
     (let w1 = (if present (abortSignal settings) then emit AddListener w else w);
          w2 = emit (SetTimeout (baseTimeout settings)) w1
      in emit (Fetch (fetch_args p settings)) w2)"

text \<open>Lines 94/95 and 101/102: the timer is cleared and the listener detached.\<close>

definition cleanup :: "('r, 'f) RequestSettings \<Rightarrow> 'f world \<Rightarrow> 'f world" where
  "cleanup settings w =
     (let w1 = emit ClearTimeout w
      in if present (abortSignal settings) then emit RemoveListener w1 else w1)"

text \<open>
  Lines 86 to 99, the \<open>try\<close> block after \<open>fetch\<close> has settled: it returns the response
  or raises a value for the \<open>catch\<close> block.
\<close>

definition try_block ::
  "('r, 'f) RequestSettings \<Rightarrow> fetch_result \<Rightarrow> 'f world \<Rightarrow> (unknown + Response) \<times> 'f world" where
  "try_block settings settled w =
     (case settled of
        Rejects e \<Rightarrow> (Inl e, w)
      | Resolves response \<Rightarrow>
          (let w1 = cleanup settings w
           in if status response \<ge> 500 then (Inl (Error new_ResponseError), w1)
              else if status response = 429
              then (Inl (Error (ResponseError ''Something went wrong, please try again after some time.'')), w1)
              else (Inr response, w1)))"

text \<open>The \<open>catch\<close> block either throws out of \<open>request\<close> or continues the loop.\<close>

datatype outcome = Throw error | Continue nat

definition catch_block ::
  "('r, 'f) RequestSettings \<Rightarrow> bool \<Rightarrow> nat \<Rightarrow> unknown \<Rightarrow> 'f world \<Rightarrow> outcome \<times> 'f world" where
  "catch_block settings userAborted attempt e w =
     (let w1 = cleanup settings w
      in if e = DOMException ''AbortError'' then
           if present (abortSignal settings) \<and> userAborted then (Throw AbortError, w1)
           else if attempt < maxAttempts settings - 1 \<and> http_method settings = GET
                then (Continue (attempt + 1), sleep (500 * 2 ^ attempt) w1)
                else (Throw TimeoutError, w1)
         else case e of
                Error (ResponseError m) \<Rightarrow> (Throw (ResponseError m), w1)
              | _ \<Rightarrow>
                  if e = TypeError \<and> attempt < maxAttempts settings - 1 \<and> http_method settings = GET
                  then (Continue (attempt + 1), sleep (500 * 2 ^ attempt) w1)
                  else (Throw new_ResponseError, w1))"

subsection \<open>The attempt loop, lines 63 to 134, and \<open>request\<close>\<close>

function attempt_loop ::
  "'r platform \<Rightarrow> ('r, 'f) RequestSettings \<Rightarrow> nat \<Rightarrow> 'f world \<Rightarrow> (error + Response) \<times> 'f world" where
  "attempt_loop p settings attempt w =
     (if attempt < maxAttempts settings then
        if present (abortSignal settings) \<and> aborted_at_start p attempt
        then (Inl AbortError, w\<lparr>activeRequests := activeRequests w - 1\<rparr>)
        else
          case try_block settings (fetch p attempt) (start_attempt p settings w) of
            (Inr response, w4) \<Rightarrow> (Inr response, w4)
          | (Inl e, w4) \<Rightarrow>
              (case catch_block settings (aborted_in_catch p attempt) attempt e w4 of
                 (Throw err, w5) \<Rightarrow> (Inl err, w5)
               | (Continue attempt', w5) \<Rightarrow> attempt_loop p settings attempt' w5)
      else (Inl new_ResponseError, w\<lparr>activeRequests := activeRequests w - 1\<rparr>))"
  by pat_completeness auto
termination
proof (relation "measure (\<lambda>(p, settings, attempt, w). maxAttempts settings - attempt)")
  show "wf (measure (\<lambda>(p, settings, attempt, w). maxAttempts settings - attempt))"
    by simp
next
  fix p :: "'r platform" and settings :: "('r, 'f) RequestSettings"
    and attempt attempt' :: nat and w w4 w5 :: "'f world" and e x2
  assume running: "attempt < maxAttempts settings"
    and caught: "(x2, w5) = catch_block settings (aborted_in_catch p attempt) attempt e w4"
    and continue: "x2 = Continue attempt'"
  from caught continue have "attempt' = attempt + 1"
    by (auto simp: catch_block_def Let_def split: if_splits unknown.splits error.splits)
  with running
  show "((p, settings, attempt', w5), (p, settings, attempt, w))
          \<in> measure (\<lambda>(p, settings, attempt, w). maxAttempts settings - attempt)"
    by simp
qed

declare attempt_loop.simps [simp del]

definition request ::
  "'r platform \<Rightarrow> ('r, 'f) RequestSettings \<Rightarrow> 'f world \<Rightarrow> (error + Response) \<times> 'f world" where
  "request p settings w =
     attempt_loop p settings 0 (w\<lparr>activeRequests := activeRequests w + 1\<rparr>)"

subsection \<open>Reading the trace\<close>

fun fetched :: "'f event \<Rightarrow> 'f fetch_init list" where
  "fetched (Fetch i) = [i]"
| "fetched ev = []"

fun slept :: "'f event \<Rightarrow> int list" where
  "slept (Sleep ms) = [ms]"
| "slept ev = []"

fun timed :: "'f event \<Rightarrow> int list" where
  "timed (SetTimeout ms) = [ms]"
| "timed ev = []"

text \<open>The transport calls, the backoff waits and the timers of a trace, in order.\<close>

definition fetches :: "'f event list \<Rightarrow> 'f fetch_init list" where
  "fetches evs = concat (map fetched evs)"

definition sleeps :: "'f event list \<Rightarrow> int list" where
  "sleeps evs = concat (map slept evs)"

definition timers :: "'f event list \<Rightarrow> int list" where
  "timers evs = concat (map timed evs)"

text \<open>The delay of line 109 and of line 123.\<close>

definition backoff :: "nat \<Rightarrow> int" where
  "backoff attempt = 500 * 2 ^ attempt"

text \<open>
  The events of the \<open>cleanup\<close> of an attempt, and those of one whole attempt that calls
  \<open>fetch\<close> and settles once: listener, timer, \<open>fetch\<close>, cleanup.
\<close>

definition settle_events :: "('r, 'f) RequestSettings \<Rightarrow> 'f event list" where
  "settle_events settings =
     ClearTimeout # (if present (abortSignal settings) then [RemoveListener] else [])"

definition attempt_events :: "'r platform \<Rightarrow> ('r, 'f) RequestSettings \<Rightarrow> 'f event list" where
  "attempt_events p settings =
     (if present (abortSignal settings) then [AddListener] else [])
     @ [SetTimeout (baseTimeout settings), Fetch (fetch_args p settings)]
     @ settle_events settings"

subsection \<open>Concrete descriptors and platforms\<close>

text \<open>A GET and a POST descriptor, with and without an external signal.\<close>

definition get_settings :: "(string, unit) RequestSettings" where
  "get_settings =
     \<lparr>accept = json, url = ''/products'', abortSignal = None, timeoutMs = None,
      http_method = GET, data = Undefined\<rparr>"

definition post_settings :: "(string, unit) RequestSettings" where
  "post_settings =
     \<lparr>accept = json, url = ''/products'', abortSignal = Some 0, timeoutMs = Some 5000,
      http_method = POST, data = Undefined\<rparr>"

definition ok_response :: Response where
  "ok_response = \<lparr>status = 200, content = ''[]''\<rparr>"

text \<open>
  A platform on which every \<open>fetch\<close> settles as \<open>settled\<close>, and the external signal reads
  \<open>before\<close> at line 74 and \<open>after\<close> at line 105. A record held as a string is its own
  JSON text.
\<close>

definition steady :: "fetch_result \<Rightarrow> bool \<Rightarrow> bool \<Rightarrow> string platform" where
  "steady settled before after =
     \<lparr>stringify = Some, defaults_headers = defaults,
      aborted_at_start = (\<lambda>i. before), fetch = (\<lambda>i. settled),
      aborted_in_catch = (\<lambda>i. after)\<rparr>"

text \<open>A platform whose first two \<open>fetch\<close> calls fail at the network and whose third answers 200.\<close>

definition flaky :: "string platform" where
  "flaky =
     \<lparr>stringify = Some, defaults_headers = defaults,
      aborted_at_start = (\<lambda>i. False),
      fetch = (\<lambda>i. if i < 2 then Rejects TypeError else Resolves ok_response),
      aborted_in_catch = (\<lambda>i. False)\<rparr>"

definition idle :: "unit world" where
  "idle = \<lparr>activeRequests = 0, trace = []\<rparr>"

section \<open>Properties\<close>

subsection \<open>What each block does to the world\<close>

lemma fetches_append [simp]: "fetches (xs @ ys) = fetches xs @ fetches ys"
  by (simp add: fetches_def)

lemma sleeps_append [simp]: "sleeps (xs @ ys) = sleeps xs @ sleeps ys"
  by (simp add: sleeps_def)

lemma timers_append [simp]: "timers (xs @ ys) = timers xs @ timers ys"
  by (simp add: timers_def)

lemma catch_block_Throw:
  assumes "catch_block s ua a e w = (Throw err, w')"
  shows "w' = cleanup s w"
  using assms
  by (auto simp: catch_block_def Let_def split: if_splits unknown.splits error.splits)

lemma catch_block_Continue:
  assumes "catch_block s ua a e w = (Continue a', w')"
  shows "a' = a + 1" and "a < maxAttempts s - 1" and "http_method s = GET"
    and "w' = sleep (500 * 2 ^ a) (cleanup s w)"
    and "e = DOMException ''AbortError'' \<or> e = TypeError"
  using assms
  by (auto simp: catch_block_def Let_def split: if_splits unknown.splits error.splits)

lemma attempt_loop_cases [consumes 1, case_names exhausted aborted returned thrown retried]:
  assumes run: "attempt_loop p s a w = (r, w')"
  obtains
    "\<not> a < maxAttempts s" "r = Inl new_ResponseError"
      "w' = w\<lparr>activeRequests := activeRequests w - 1\<rparr>"
  | "a < maxAttempts s" "present (abortSignal s)" "aborted_at_start p a" "r = Inl AbortError"
      "w' = w\<lparr>activeRequests := activeRequests w - 1\<rparr>"
  | response where "a < maxAttempts s" "\<not> (present (abortSignal s) \<and> aborted_at_start p a)"
      "try_block s (fetch p a) (start_attempt p s w) = (Inr response, w')" "r = Inr response"
  | e w4 err where "a < maxAttempts s" "\<not> (present (abortSignal s) \<and> aborted_at_start p a)"
      "try_block s (fetch p a) (start_attempt p s w) = (Inl e, w4)"
      "catch_block s (aborted_in_catch p a) a e w4 = (Throw err, w')" "r = Inl err"
  | e w4 w5 where "a < maxAttempts s" "\<not> (present (abortSignal s) \<and> aborted_at_start p a)"
      "try_block s (fetch p a) (start_attempt p s w) = (Inl e, w4)"
      "catch_block s (aborted_in_catch p a) a e w4 = (Continue (a + 1), w5)"
      "attempt_loop p s (a + 1) w5 = (r, w')"
proof (cases "a < maxAttempts s")
  case False
  with run that(1) show ?thesis
    by (simp add: attempt_loop.simps)
next
  case running: True
  show ?thesis
  proof (cases "present (abortSignal s) \<and> aborted_at_start p a")
    case True
    with run running that(2) show ?thesis
      by (simp add: attempt_loop.simps)
  next
    case go: False
    obtain t w4 where t: "try_block s (fetch p a) (start_attempt p s w) = (t, w4)"
      by (cases "try_block s (fetch p a) (start_attempt p s w)")
    show ?thesis
    proof (cases t)
      case (Inr response)
      with run running go t that(3) show ?thesis
        by (simp add: attempt_loop.simps)
    next
      case (Inl e)
      obtain c w5 where c: "catch_block s (aborted_in_catch p a) a e w4 = (c, w5)"
        by (cases "catch_block s (aborted_in_catch p a) a e w4")
      show ?thesis
      proof (cases c)
        case (Throw err)
        with run running go t Inl c that(4) show ?thesis
          by (simp add: attempt_loop.simps)
      next
        case (Continue a')
        with c have a': "a' = a + 1"
          by (auto dest: catch_block_Continue(1))
        with run running go t Inl c Continue that(5) show ?thesis
          by (simp add: attempt_loop.simps)
      qed
    qed
  qed
qed


lemma cleanup_effect [simp]:
  "activeRequests (cleanup s w) = activeRequests w"
  "fetches (trace (cleanup s w)) = fetches (trace w)"
  "sleeps (trace (cleanup s w)) = sleeps (trace w)"
  "timers (trace (cleanup s w)) = timers (trace w)"
  by (simp_all add: cleanup_def emit_def Let_def fetches_def sleeps_def timers_def)

lemma start_attempt_effect [simp]:
  "activeRequests (start_attempt p s w) = activeRequests w"
  "fetches (trace (start_attempt p s w)) = fetches (trace w) @ [fetch_args p s]"
  "sleeps (trace (start_attempt p s w)) = sleeps (trace w)"
  "timers (trace (start_attempt p s w)) = timers (trace w) @ [baseTimeout s]"
  by (simp_all add: start_attempt_def emit_def Let_def fetches_def sleeps_def timers_def)

lemma sleep_effect [simp]:
  "activeRequests (sleep ms w) = activeRequests w"
  "fetches (trace (sleep ms w)) = fetches (trace w)"
  "sleeps (trace (sleep ms w)) = sleeps (trace w) @ [ms]"
  "timers (trace (sleep ms w)) = timers (trace w)"
  by (simp_all add: sleep_def emit_def fetches_def sleeps_def timers_def)

lemma try_block_effect:
  assumes "try_block s fr w = (r, w')"
  shows "activeRequests w' = activeRequests w"
    and "fetches (trace w') = fetches (trace w)"
    and "sleeps (trace w') = sleeps (trace w)"
    and "timers (trace w') = timers (trace w)"
  using assms
  by (auto simp: try_block_def Let_def split: fetch_result.splits if_splits)

lemma attempt_loop_counter:
  "attempt_loop p s a w = (r, w') \<Longrightarrow>
   activeRequests w' = activeRequests w \<or> activeRequests w' = activeRequests w - 1"
proof (induction "maxAttempts s - a" arbitrary: a w rule: less_induct)
  case less
  from less.prems show ?case
  proof (cases rule: attempt_loop_cases)
    case (retried e w4 w5)
    from retried(1) have "maxAttempts s - (a + 1) < maxAttempts s - a"
      by simp
    from less.hyps [OF this retried(5)] retried(3,4) show ?thesis
      by (auto dest!: try_block_effect(1) catch_block_Continue(4))
  qed (auto dest!: try_block_effect(1) catch_block_Throw)
qed

lemma attempt_loop_no_signal_counter:
  "attempt_loop p s a w = (r, w') \<Longrightarrow> \<not> present (abortSignal s) \<Longrightarrow> a < maxAttempts s \<Longrightarrow>
   activeRequests w' = activeRequests w"
proof (induction "maxAttempts s - a" arbitrary: a w rule: less_induct)
  case less
  from less.prems(1) show ?case
  proof (cases rule: attempt_loop_cases)
    case (retried e w4 w5)
    from retried(1) have "maxAttempts s - (a + 1) < maxAttempts s - a"
      by simp
    moreover from retried(4) have "a + 1 < maxAttempts s"
      by (auto dest: catch_block_Continue(2))
    ultimately show ?thesis
      using less.hyps [OF _ retried(5) less.prems(2)] retried(3,4)
      by (auto dest!: try_block_effect(1) catch_block_Continue(4))
  qed (use less.prems in \<open>auto dest!: try_block_effect(1) catch_block_Throw\<close>)
qed

lemma attempt_loop_fetches:
  "attempt_loop p s a w = (r, w') \<Longrightarrow>
   \<exists>k. k \<le> maxAttempts s - a
     \<and> fetches (trace w') = fetches (trace w) @ replicate k (fetch_args p s)
     \<and> timers (trace w') = timers (trace w) @ replicate k (baseTimeout s)"
proof (induction "maxAttempts s - a" arbitrary: a w rule: less_induct)
  case less
  from less.prems show ?case
  proof (cases rule: attempt_loop_cases)
    case exhausted
    then show ?thesis by simp
  next
    case aborted
    then show ?thesis by simp
  next
    case (returned response)
    from returned(1) have "1 \<le> maxAttempts s - a" by simp
    with try_block_effect(2,4) [OF returned(3)] show ?thesis
      by (intro exI [of _ 1]) simp
  next
    case (thrown e w4 err)
    from thrown(1) have "1 \<le> maxAttempts s - a" by simp
    with try_block_effect(2,4) [OF thrown(3)] catch_block_Throw [OF thrown(4)] show ?thesis
      by (intro exI [of _ 1]) simp
  next
    case (retried e w4 w5)
    from retried(1) have dec: "maxAttempts s - (a + 1) < maxAttempts s - a"
      by simp
    from less.hyps [OF dec retried(5)] obtain k where k: "k \<le> maxAttempts s - (a + 1)"
      "fetches (trace w') = fetches (trace w5) @ replicate k (fetch_args p s)"
      "timers (trace w') = timers (trace w5) @ replicate k (baseTimeout s)"
      by blast
    have "w5 = sleep (500 * 2 ^ a) (cleanup s w4)"
      using retried(4) by (rule catch_block_Continue(4))
    with try_block_effect(2,4) [OF retried(3)] k retried(1) show ?thesis
      by (intro exI [of _ "Suc k"]) (simp add: replicate_append_same)
  qed
qed

lemma attempt_loop_sleeps:
  "attempt_loop p s a w = (r, w') \<Longrightarrow>
   \<exists>n. (n = 0 \<or> a + n < maxAttempts s)
     \<and> sleeps (trace w') = sleeps (trace w) @ map backoff [a ..< a + n]"
proof (induction "maxAttempts s - a" arbitrary: a w rule: less_induct)
  case less
  from less.prems show ?case
  proof (cases rule: attempt_loop_cases)
    case exhausted
    then show ?thesis by (intro exI [of _ 0]) simp
  next
    case aborted
    then show ?thesis by (intro exI [of _ 0]) simp
  next
    case (returned response)
    with try_block_effect(3) [OF returned(3)] show ?thesis
      by (intro exI [of _ 0]) simp
  next
    case (thrown e w4 err)
    with try_block_effect(3) [OF thrown(3)] catch_block_Throw [OF thrown(4)] show ?thesis
      by (intro exI [of _ 0]) simp
  next
    case (retried e w4 w5)
    from retried(1) have dec: "maxAttempts s - (a + 1) < maxAttempts s - a"
      by simp
    from less.hyps [OF dec retried(5)] obtain n where n: "n = 0 \<or> a + 1 + n < maxAttempts s"
      "sleeps (trace w') = sleeps (trace w5) @ map backoff [a + 1 ..< a + 1 + n]"
      by blast
    have w5: "w5 = sleep (500 * 2 ^ a) (cleanup s w4)"
      using retried(4) by (rule catch_block_Continue(4))
    have more: "a + 1 < maxAttempts s"
      using catch_block_Continue(2) [OF retried(4)] by simp
    have "[a ..< a + Suc n] = a # [a + 1 ..< a + 1 + n]"
      by (simp add: upt_rec)
    with try_block_effect(3) [OF retried(3)] n w5 more show ?thesis
      by (intro exI [of _ "Suc n"]) (auto simp: backoff_def)
  qed
qed

lemma projections_Nil [simp]: "fetches [] = []" "sleeps [] = []" "timers [] = []"
  by (simp_all add: fetches_def sleeps_def timers_def)

subsection \<open>One attempt, unfolded\<close>

lemma attempt_loop_resolved:
  assumes "attempt < maxAttempts s"
    and "\<not> (present (abortSignal s) \<and> aborted_at_start p attempt)"
    and "fetch p attempt = Resolves response"
  shows "attempt_loop p s attempt w =
     (if status response \<ge> 500
      then (Inl (ResponseError ''Something went wrong.''), cleanup s (cleanup s (start_attempt p s w)))
      else if status response = 429
      then (Inl (ResponseError ''Something went wrong, please try again after some time.''),
            cleanup s (cleanup s (start_attempt p s w)))
      else (Inr response, cleanup s (start_attempt p s w)))"
  using assms
  by (subst attempt_loop.simps)
    (simp add: try_block_def catch_block_def Let_def new_ResponseError_def)

lemma attempt_loop_rejected:
  assumes "attempt < maxAttempts s"
    and "\<not> (present (abortSignal s) \<and> aborted_at_start p attempt)"
    and "fetch p attempt = Rejects e"
  shows "attempt_loop p s attempt w =
     (case catch_block s (aborted_in_catch p attempt) attempt e (start_attempt p s w) of
        (Throw err, w5) \<Rightarrow> (Inl err, w5)
      | (Continue attempt', w5) \<Rightarrow> attempt_loop p s attempt' w5)"
  using assms
  by (subst attempt_loop.simps) (auto simp add: try_block_def)

lemma attempt_loop_network_retry:
  assumes "attempt + 1 < maxAttempts s"
    and "http_method s = GET"
    and "\<not> (present (abortSignal s) \<and> aborted_at_start p attempt)"
    and "fetch p attempt = Rejects TypeError"
  shows "attempt_loop p s attempt w =
     attempt_loop p s (attempt + 1) (sleep (500 * 2 ^ attempt) (cleanup s (start_attempt p s w)))"
proof -
  from assms(1) have running: "attempt < maxAttempts s" and more: "attempt < maxAttempts s - 1"
    by simp_all
  from more assms(2) show ?thesis
    by (simp add: attempt_loop_rejected [OF running assms(3,4)] catch_block_def Let_def)
qed

lemma catch_block_not_GET:
  assumes "http_method s \<noteq> GET"
  shows "catch_block s ua attempt e w =
     (Throw (if e = DOMException ''AbortError''
             then (if present (abortSignal s) \<and> ua then AbortError else TimeoutError)
             else case e of Error (ResponseError m) \<Rightarrow> ResponseError m | _ \<Rightarrow> new_ResponseError),
      cleanup s w)"
  using assms
  by (auto simp: catch_block_def Let_def split: unknown.splits error.splits)

subsection \<open>A whole call\<close>

lemma request_fetches:
  "\<exists>k. k \<le> maxAttempts s
     \<and> fetches (trace (snd (request p s w))) = fetches (trace w) @ replicate k (fetch_args p s)
     \<and> timers (trace (snd (request p s w))) = timers (trace w) @ replicate k (baseTimeout s)"
proof -
  obtain r w' where run: "attempt_loop p s 0 (w\<lparr>activeRequests := activeRequests w + 1\<rparr>) = (r, w')"
    by (cases "attempt_loop p s 0 (w\<lparr>activeRequests := activeRequests w + 1\<rparr>)")
  from attempt_loop_fetches [OF run] run show ?thesis
    by (simp add: request_def)
qed

lemma request_sleeps:
  "\<exists>n. n < maxAttempts s
     \<and> sleeps (trace (snd (request p s w))) = sleeps (trace w) @ map backoff [0 ..< n]"
proof -
  obtain r w' where run: "attempt_loop p s 0 (w\<lparr>activeRequests := activeRequests w + 1\<rparr>) = (r, w')"
    by (cases "attempt_loop p s 0 (w\<lparr>activeRequests := activeRequests w + 1\<rparr>)")
  from attempt_loop_sleeps [OF run] obtain n where
    n: "n = 0 \<or> n < maxAttempts s" "sleeps (trace w') = sleeps (trace w) @ map backoff [0 ..< n]"
    by auto
  have "0 < maxAttempts s"
    by (simp add: maxAttempts_def)
  with n run show ?thesis
    by (intro exI [of _ n]) (auto simp: request_def)
qed

lemma request_not_GET:
  assumes "http_method s \<noteq> GET"
    and "\<not> (present (abortSignal s) \<and> aborted_at_start p 0)"
  shows "fetches (trace (snd (request p s w))) = fetches (trace w) @ [fetch_args p s]"
    and "sleeps (trace (snd (request p s w))) = sleeps (trace w)"
proof -
  have one: "0 < maxAttempts s"
    by (simp add: maxAttempts_def)
  have "fetches (trace (snd (request p s w))) = fetches (trace w) @ [fetch_args p s]
    \<and> sleeps (trace (snd (request p s w))) = sleeps (trace w)"
  proof (cases "fetch p 0")
    case (Resolves response)
    show ?thesis
      by (simp add: request_def attempt_loop_resolved [OF one assms(2) Resolves])
  next
    case (Rejects e)
    from assms(1) show ?thesis
      by (simp add: request_def attempt_loop_rejected [OF one assms(2) Rejects] catch_block_not_GET)
  qed
  then show "fetches (trace (snd (request p s w))) = fetches (trace w) @ [fetch_args p s]"
    and "sleeps (trace (snd (request p s w))) = sleeps (trace w)"
    by simp_all
qed

lemma request_counter_bounds:
  "activeRequests (snd (request p s w)) = activeRequests w
   \<or> activeRequests (snd (request p s w)) = activeRequests w + 1"
proof -
  obtain r w' where run: "attempt_loop p s 0 (w\<lparr>activeRequests := activeRequests w + 1\<rparr>) = (r, w')"
    by (cases "attempt_loop p s 0 (w\<lparr>activeRequests := activeRequests w + 1\<rparr>)")
  from attempt_loop_counter [OF run] run show ?thesis
    by (auto simp: request_def)
qed

lemma request_counter_without_signal:
  assumes "\<not> present (abortSignal s)"
  shows "activeRequests (snd (request p s w)) = activeRequests w + 1"
proof -
  obtain r w' where run: "attempt_loop p s 0 (w\<lparr>activeRequests := activeRequests w + 1\<rparr>) = (r, w')"
    by (cases "attempt_loop p s 0 (w\<lparr>activeRequests := activeRequests w + 1\<rparr>)")
  have "0 < maxAttempts s"
    by (simp add: maxAttempts_def)
  from attempt_loop_no_signal_counter [OF run assms this] run show ?thesis
    by (simp add: request_def)
qed

subsection \<open>The trace of a whole call\<close>

lemma cleanup_trace: "trace (cleanup s w) = trace w @ settle_events s"
  by (simp add: cleanup_def emit_def Let_def settle_events_def)

lemma attempt_trace:
  "trace (cleanup s (start_attempt p s w)) = trace w @ attempt_events p s"
  by (simp add: cleanup_trace attempt_events_def start_attempt_def emit_def Let_def)

lemma try_block_cases:
  assumes "try_block s settled w = (r, w')"
  shows "(\<exists>e. settled = Rejects e \<and> r = Inl e \<and> w' = w)
    \<or> (\<exists>m. r = Inl (Error (ResponseError m)) \<and> w' = cleanup s w)
    \<or> (\<exists>response. r = Inr response \<and> w' = cleanup s w)"
  using assms
  by (auto simp: try_block_def Let_def new_ResponseError_def split: fetch_result.splits if_splits)

lemma attempt_loop_trace:
  "attempt_loop p s a w = (r, w') \<Longrightarrow> a < maxAttempts s \<Longrightarrow>
   \<exists>n tail. a + n < maxAttempts s
     \<and> trace w' = trace w
          @ concat (map (\<lambda>i. attempt_events p s @ [Sleep (500 * 2 ^ i)]) [a ..< a + n]) @ tail
     \<and> (tail = [] \<and> present (abortSignal s) \<and> aborted_at_start p (a + n)
        \<or> tail = attempt_events p s
        \<or> tail = attempt_events p s @ settle_events s)"
proof (induction "maxAttempts s - a" arbitrary: a w rule: less_induct)
  case less
  from less.prems(1) show ?case
  proof (cases rule: attempt_loop_cases)
    case exhausted
    with less.prems(2) show ?thesis by simp
  next
    case aborted
    with less.prems(2) show ?thesis
      by (intro exI [of _ 0] exI [of _ "[]"]) simp
  next
    case (returned response)
    from try_block_cases [OF returned(3)] have "w' = cleanup s (start_attempt p s w)"
      by auto
    with less.prems(2) show ?thesis
      by (intro exI [of _ 0] exI [of _ "attempt_events p s"]) (simp add: attempt_trace)
  next
    case (thrown e w4 err)
    have w': "w' = cleanup s w4"
      using thrown(4) by (rule catch_block_Throw)
    from try_block_cases [OF thrown(3)]
    consider "w4 = start_attempt p s w" | "w4 = cleanup s (start_attempt p s w)"
      by auto
    then show ?thesis
    proof cases
      case 1
      with w' less.prems(2) show ?thesis
        by (intro exI [of _ 0] exI [of _ "attempt_events p s"]) (simp add: attempt_trace)
    next
      case 2
      with w' less.prems(2) show ?thesis
        by (intro exI [of _ 0] exI [of _ "attempt_events p s @ settle_events s"])
          (simp add: cleanup_trace attempt_events_def start_attempt_def emit_def Let_def)
    qed
  next
    case (retried e w4 w5)
    from retried(1) have dec: "maxAttempts s - (a + 1) < maxAttempts s - a"
      by simp
    have more: "a + 1 < maxAttempts s"
      using catch_block_Continue(2) [OF retried(4)] by simp
    have "e = DOMException ''AbortError'' \<or> e = TypeError"
      using retried(4) by (rule catch_block_Continue(5))
    with try_block_cases [OF retried(3)] have w4: "w4 = start_attempt p s w"
      by auto
    have w5: "w5 = sleep (500 * 2 ^ a) (cleanup s w4)"
      using retried(4) by (rule catch_block_Continue(4))
    have t5: "trace w5 = trace w @ attempt_events p s @ [Sleep (500 * 2 ^ a)]"
      by (simp add: w5 w4 sleep_def emit_def attempt_trace)
    from less.hyps [OF dec retried(5) more] obtain n tail where
      n: "a + 1 + n < maxAttempts s"
      and tr: "trace w' = trace w5
          @ concat (map (\<lambda>i. attempt_events p s @ [Sleep (500 * 2 ^ i)]) [a + 1 ..< a + 1 + n]) @ tail"
      and tl: "tail = [] \<and> present (abortSignal s) \<and> aborted_at_start p (a + 1 + n)
        \<or> tail = attempt_events p s
        \<or> tail = attempt_events p s @ settle_events s"
      by blast
    have upt: "[a ..< a + Suc n] = a # [a + 1 ..< a + 1 + n]"
      by (simp add: upt_rec)
    have "a + Suc n < maxAttempts s"
      using n by simp
    moreover have "trace w' = trace w
          @ concat (map (\<lambda>i. attempt_events p s @ [Sleep (500 * 2 ^ i)]) [a ..< a + Suc n]) @ tail"
      by (simp only: upt tr t5) simp
    moreover have "tail = [] \<and> present (abortSignal s) \<and> aborted_at_start p (a + Suc n)
        \<or> tail = attempt_events p s
        \<or> tail = attempt_events p s @ settle_events s"
      using tl by simp
    ultimately show ?thesis
      by blast
  qed
qed

lemma request_trace:
  "\<exists>n tail. n < maxAttempts s
     \<and> trace (snd (request p s w)) = trace w
          @ concat (map (\<lambda>i. attempt_events p s @ [Sleep (500 * 2 ^ i)]) [0 ..< n]) @ tail
     \<and> (tail = [] \<and> present (abortSignal s) \<and> aborted_at_start p n
        \<or> tail = attempt_events p s
        \<or> tail = attempt_events p s @ settle_events s)"
proof -
  obtain r w' where run: "attempt_loop p s 0 (w\<lparr>activeRequests := activeRequests w + 1\<rparr>) = (r, w')"
    by (cases "attempt_loop p s 0 (w\<lparr>activeRequests := activeRequests w + 1\<rparr>)")
  have "0 < maxAttempts s"
    by (simp add: maxAttempts_def)
  from attempt_loop_trace [OF run this] run show ?thesis
    by (simp add: request_def)
qed

section \<open>The claims\<close>

subsection \<open>The in-flight counter\<close>

text \<open>
  C1. The claim: whatever the outcome of a call to \<open>request\<close>, the counter
  \<open>__activeRequests\<close> is back at its value from before the call once the call has
  settled. The source increments at line 41 and decrements at two places only, the
  pre-check of line 75 and the fallback of line 133, so a call that returns a response
  at line 99 (or throws from the \<open>catch\<close> block) leaves the counter one higher. The
  run below is a GET without signal that is answered 200 at the first attempt: it
  returns the response, and the counter that was 0 is 1.
\<close>

theorem request_leaves_counter_incremented:
  "fst (request (steady (Resolves ok_response) False False) get_settings idle) = Inr ok_response
   \<and> activeRequests idle = 0
   \<and> activeRequests (snd (request (steady (Resolves ok_response) False False) get_settings idle)) = 1"
  by (simp add: request_def attempt_loop.simps maxAttempts_def get_settings_def steady_def
      present_def try_block_def start_attempt_def cleanup_def emit_def idle_def ok_response_def)

text \<open>
  C6. When the external signal reads as aborted at the start of an attempt (line 74),
  the call decrements the counter and fails with \<open>AbortError\<close>, and that attempt
  reaches neither the timer nor \<open>fetch\<close>: the trace is unchanged. When this happens at the
  first attempt, that is, the signal was already aborted at call time, the whole call
  fails with \<open>AbortError\<close> and leaves the world as it found it: no transport call, and the
  counter at its value from before the call.
\<close>

theorem precheck_abort:
  "(present (abortSignal s) \<and> aborted_at_start p attempt \<and> attempt < maxAttempts s \<longrightarrow>
      attempt_loop p s attempt w = (Inl AbortError, w\<lparr>activeRequests := activeRequests w - 1\<rparr>))
   \<and> (present (abortSignal s) \<and> aborted_at_start p 0 \<longrightarrow> request p s w = (Inl AbortError, w))"
proof -
  have "0 < maxAttempts s"
    by (simp add: maxAttempts_def)
  then show ?thesis
    by (simp add: request_def attempt_loop.simps [of p s attempt] attempt_loop.simps [of p s 0])
qed

theorem precheck_abort_witness:
  "present (abortSignal post_settings)
   \<and> aborted_at_start (steady (Resolves ok_response) True True) 0
   \<and> request (steady (Resolves ok_response) True True) post_settings idle = (Inl AbortError, idle)
   \<and> fetches (trace idle) = []"
  using precheck_abort [of post_settings "steady (Resolves ok_response) True True" 0 idle]
  by (simp add: post_settings_def steady_def present_def idle_def)

subsection \<open>Classification of an attempt\<close>

text \<open>
  C2. An attempt whose \<open>fetch\<close> is rejected with a \<open>DOMException\<close> named \<open>AbortError\<close>
  is classified by the state of the external signal read in the \<open>catch\<close> block (line 105):
  if there is a signal and it is aborted, the call fails with \<open>AbortError\<close>, whatever the
  method and the attempt index, with no wait and no further attempt; otherwise, a GET
  with an attempt left waits the backoff delay and goes on with the next attempt, and
  every other call fails with \<open>TimeoutError\<close>.
\<close>

theorem cancellation_classification:
  assumes "attempt < maxAttempts s"
    and "\<not> (present (abortSignal s) \<and> aborted_at_start p attempt)"
    and "fetch p attempt = Rejects (DOMException ''AbortError'')"
  shows "attempt_loop p s attempt w =
     (if present (abortSignal s) \<and> aborted_in_catch p attempt
      then (Inl AbortError, cleanup s (start_attempt p s w))
      else if http_method s = GET \<and> attempt + 1 < maxAttempts s
      then attempt_loop p s (attempt + 1) (sleep (backoff attempt) (cleanup s (start_attempt p s w)))
      else (Inl TimeoutError, cleanup s (start_attempt p s w)))"
  using assms(1)
  by (auto simp: attempt_loop_rejected [OF assms] catch_block_def Let_def backoff_def)

theorem cancellation_classification_witness:
  "fst (attempt_loop (steady (Rejects (DOMException ''AbortError'')) False True) post_settings 0 idle)
     = Inl AbortError
   \<and> sleeps (trace (snd (attempt_loop (steady (Rejects (DOMException ''AbortError'')) False True)
        post_settings 0 idle))) = []
   \<and> fst (attempt_loop (steady (Rejects (DOMException ''AbortError'')) False False) post_settings 0 idle)
     = Inl TimeoutError
   \<and> fst (attempt_loop (steady (Rejects (DOMException ''AbortError'')) False False) get_settings 2 idle)
     = Inl TimeoutError
   \<and> attempt_loop (steady (Rejects (DOMException ''AbortError'')) False False) get_settings 0 idle
     = attempt_loop (steady (Rejects (DOMException ''AbortError'')) False False) get_settings 1
         (sleep 500 (cleanup get_settings
            (start_attempt (steady (Rejects (DOMException ''AbortError'')) False False) get_settings idle)))"
  using cancellation_classification
      [of 0 post_settings "steady (Rejects (DOMException ''AbortError'')) False True" idle]
    cancellation_classification
      [of 0 post_settings "steady (Rejects (DOMException ''AbortError'')) False False" idle]
    cancellation_classification
      [of 2 get_settings "steady (Rejects (DOMException ''AbortError'')) False False" idle]
    cancellation_classification
      [of 0 get_settings "steady (Rejects (DOMException ''AbortError'')) False False" idle]
  by (simp add: maxAttempts_def get_settings_def post_settings_def steady_def present_def
      backoff_def idle_def)

text \<open>
  C3. An attempt whose \<open>fetch\<close> resolves with a response ends the call: with
  \<open>ResponseError\<close> and the message \<open>Something went wrong.\<close> when the status is at least
  500, with \<open>ResponseError\<close> and the rate-limit message when the status is 429, and with
  the response itself for any other status. In each case, for GET too, exactly one
  transport call has been made by the attempt and no backoff wait: nothing is retried.
\<close>

theorem response_status_classification:
  assumes "attempt < maxAttempts s"
    and "\<not> (present (abortSignal s) \<and> aborted_at_start p attempt)"
    and "fetch p attempt = Resolves response"
  shows "fst (attempt_loop p s attempt w) =
           (if status response \<ge> 500 then Inl (ResponseError ''Something went wrong.'')
            else if status response = 429
            then Inl (ResponseError ''Something went wrong, please try again after some time.'')
            else Inr response)
         \<and> fetches (trace (snd (attempt_loop p s attempt w))) = fetches (trace w) @ [fetch_args p s]
         \<and> sleeps (trace (snd (attempt_loop p s attempt w))) = sleeps (trace w)"
  by (simp add: attempt_loop_resolved [OF assms])

theorem response_status_classification_witness:
  "fst (attempt_loop (steady (Resolves \<lparr>status = 503, content = []\<rparr>) False False) get_settings 0 idle)
     = Inl (ResponseError ''Something went wrong.'')
   \<and> length (fetches (trace (snd (attempt_loop (steady (Resolves \<lparr>status = 503, content = []\<rparr>) False False) get_settings 0 idle)))) = 1
   \<and> fst (attempt_loop (steady (Resolves \<lparr>status = 429, content = []\<rparr>) False False) get_settings 0 idle)
     = Inl (ResponseError ''Something went wrong, please try again after some time.'')
   \<and> fst (attempt_loop (steady (Resolves ok_response) False False) get_settings 0 idle) = Inr ok_response"
  using response_status_classification
      [of 0 get_settings "steady (Resolves \<lparr>status = 503, content = []\<rparr>) False False"
          "\<lparr>status = 503, content = []\<rparr>" idle]
    response_status_classification
      [of 0 get_settings "steady (Resolves \<lparr>status = 429, content = []\<rparr>) False False"
          "\<lparr>status = 429, content = []\<rparr>" idle]
    response_status_classification
      [of 0 get_settings "steady (Resolves ok_response) False False" ok_response idle]
  by (simp add: maxAttempts_def get_settings_def steady_def present_def ok_response_def idle_def)

subsection \<open>Retries\<close>

text \<open>
  C4. The budget \<open>maxAttempts\<close> is 3 for GET and 1 for every other method, and a call
  makes at most that many transport calls. A call with another method whose signal is
  not aborted at the start makes exactly one transport call and waits for no backoff;
  if that transport call fails, whatever it was rejected with (a network failure, a
  cancellation by the timeout or the signal, anything else), the call fails at once,
  with the error the \<open>catch\<close> block assigns.
\<close>

theorem retry_budget:
  "maxAttempts s = (if http_method s = GET then 3 else 1)
   \<and> length (fetches (trace (snd (request p s w)))) \<le> length (fetches (trace w)) + maxAttempts s
   \<and> (http_method s \<noteq> GET \<and> \<not> (present (abortSignal s) \<and> aborted_at_start p 0) \<longrightarrow>
        fetches (trace (snd (request p s w))) = fetches (trace w) @ [fetch_args p s]
        \<and> sleeps (trace (snd (request p s w))) = sleeps (trace w))
   \<and> (http_method s \<noteq> GET \<and> \<not> (present (abortSignal s) \<and> aborted_at_start p 0)
        \<and> fetch p 0 = Rejects e \<longrightarrow>
        fst (request p s w) =
          Inl (if e = DOMException ''AbortError''
               then (if present (abortSignal s) \<and> aborted_in_catch p 0 then AbortError
                     else TimeoutError)
               else case e of Error (ResponseError m) \<Rightarrow> ResponseError m
                    | _ \<Rightarrow> ResponseError ''Something went wrong.''))"
proof (intro conjI impI)
  show "maxAttempts s = (if http_method s = GET then 3 else 1)"
    by (simp add: maxAttempts_def)
next
  from request_fetches [of s p w]
  show "length (fetches (trace (snd (request p s w)))) \<le> length (fetches (trace w)) + maxAttempts s"
    by auto
next
  assume once: "http_method s \<noteq> GET \<and> \<not> (present (abortSignal s) \<and> aborted_at_start p 0)"
  then show "fetches (trace (snd (request p s w))) = fetches (trace w) @ [fetch_args p s]"
    and "sleeps (trace (snd (request p s w))) = sleeps (trace w)"
    by (simp_all add: request_not_GET)
next
  assume fails: "http_method s \<noteq> GET \<and> \<not> (present (abortSignal s) \<and> aborted_at_start p 0)
    \<and> fetch p 0 = Rejects e"
  then have one: "0 < maxAttempts s" and go: "\<not> (present (abortSignal s) \<and> aborted_at_start p 0)"
    and rej: "fetch p 0 = Rejects e"
    by (simp_all add: maxAttempts_def)
  from fails show "fst (request p s w) =
          Inl (if e = DOMException ''AbortError''
               then (if present (abortSignal s) \<and> aborted_in_catch p 0 then AbortError
                     else TimeoutError)
               else case e of Error (ResponseError m) \<Rightarrow> ResponseError m
                    | _ \<Rightarrow> ResponseError ''Something went wrong.'')"
    by (simp add: request_def attempt_loop_rejected [OF one go rej] catch_block_not_GET
        new_ResponseError_def split: unknown.splits error.splits)
qed

theorem retry_budget_witness:
  "http_method post_settings \<noteq> GET
   \<and> \<not> (present (abortSignal post_settings) \<and> aborted_at_start (steady (Rejects TypeError) False False) 0)
   \<and> fetch (steady (Rejects TypeError) False False) 0 = Rejects TypeError
   \<and> maxAttempts post_settings = 1
   \<and> length (fetches (trace (snd (request (steady (Rejects TypeError) False False) post_settings idle)))) = 1
   \<and> sleeps (trace (snd (request (steady (Rejects TypeError) False False) post_settings idle))) = []
   \<and> fst (request (steady (Rejects TypeError) False False) post_settings idle)
       = Inl (ResponseError ''Something went wrong.'')"
  using retry_budget [of post_settings "steady (Rejects TypeError) False False" idle TypeError]
  by (simp add: post_settings_def steady_def idle_def)

text \<open>
  C5. The \<open>catch\<close> block continues the loop only with an attempt left, after a wait of
  500 ms times 2 to the power of the attempt index that failed, and when it throws it
  has waited for nothing; over a whole call the waits are 500, 1000, \<open>\<dots>\<close> in this
  order, fewer than the budget of attempts. In particular, a GET whose first two
  transport calls fail at the network (\<open>TypeError\<close>) and whose third is answered with a
  status that \<open>request\<close> returns (under 500 and not 429) returns that response after
  three transport calls and the waits 500 ms and 1000 ms. (That the transport is called
  three times is part of the claim's premise: the signal, if any, does not read as
  aborted at the start of these attempts.)
\<close>

theorem backoff_schedule:
  "(catch_block s ua attempt e w = (Continue attempt', w') \<longrightarrow>
      attempt' = attempt + 1 \<and> attempt + 1 < maxAttempts s
      \<and> w' = sleep (500 * 2 ^ attempt) (cleanup s w))
   \<and> (catch_block s ua attempt e w = (Throw err, w') \<longrightarrow> sleeps (trace w') = sleeps (trace w))
   \<and> (\<exists>n. n < maxAttempts s
        \<and> sleeps (trace (snd (request p s v))) = sleeps (trace v) @ map (\<lambda>i. 500 * 2 ^ i) [0 ..< n])
   \<and> (http_method s = GET \<and> (\<forall>i < 3. \<not> (present (abortSignal s) \<and> aborted_at_start p i))
        \<and> fetch p 0 = Rejects TypeError \<and> fetch p 1 = Rejects TypeError
        \<and> fetch p 2 = Resolves response \<and> status response < 500 \<and> status response \<noteq> 429 \<longrightarrow>
        fst (request p s v) = Inr response
        \<and> fetches (trace (snd (request p s v))) = fetches (trace v) @ replicate 3 (fetch_args p s)
        \<and> sleeps (trace (snd (request p s v))) = sleeps (trace v) @ [500, 1000])"
proof (intro conjI impI)
  assume c: "catch_block s ua attempt e w = (Continue attempt', w')"
  from catch_block_Continue(1) [OF c] show "attempt' = attempt + 1" .
  from catch_block_Continue(2) [OF c] show "attempt + 1 < maxAttempts s" by simp
  from catch_block_Continue(4) [OF c] show "w' = sleep (500 * 2 ^ attempt) (cleanup s w)" .
next
  assume "catch_block s ua attempt e w = (Throw err, w')"
  from catch_block_Throw [OF this] show "sleeps (trace w') = sleeps (trace w)"
    by simp
next
  from request_sleeps [of s p v]
  show "\<exists>n. n < maxAttempts s
        \<and> sleeps (trace (snd (request p s v))) = sleeps (trace v) @ map (\<lambda>i. 500 * 2 ^ i) [0 ..< n]"
    by (simp add: backoff_def [abs_def])
next
  assume flaky: "http_method s = GET \<and> (\<forall>i < 3. \<not> (present (abortSignal s) \<and> aborted_at_start p i))
        \<and> fetch p 0 = Rejects TypeError \<and> fetch p 1 = Rejects TypeError
        \<and> fetch p 2 = Resolves response \<and> status response < 500 \<and> status response \<noteq> 429"
  then have get: "http_method s = GET" and budget: "maxAttempts s = Suc (Suc (Suc 0))"
    and f0: "fetch p 0 = Rejects TypeError" and f1: "fetch p (Suc 0) = Rejects TypeError"
    and f2: "fetch p (Suc (Suc 0)) = Resolves response"
    and ok: "\<not> 500 \<le> status response" "status response \<noteq> 429"
    by (simp_all add: maxAttempts_def numeral_2_eq_2)
  from flaky have go0: "\<not> (present (abortSignal s) \<and> aborted_at_start p 0)"
    and go1: "\<not> (present (abortSignal s) \<and> aborted_at_start p (Suc 0))"
    and go2: "\<not> (present (abortSignal s) \<and> aborted_at_start p (Suc (Suc 0)))"
    by auto
  let ?w0 = "v\<lparr>activeRequests := activeRequests v + 1\<rparr>"
  let ?w1 = "sleep 500 (cleanup s (start_attempt p s ?w0))"
  let ?w2 = "sleep 1000 (cleanup s (start_attempt p s ?w1))"
  have first: "attempt_loop p s 0 ?w0 = attempt_loop p s (Suc 0) ?w1"
    using attempt_loop_network_retry [of 0 s p ?w0] budget get go0 f0 by simp
  have second: "attempt_loop p s (Suc 0) ?w1 = attempt_loop p s (Suc (Suc 0)) ?w2"
    using attempt_loop_network_retry [of "Suc 0" s p ?w1] budget get go1 f1 by simp
  have third: "attempt_loop p s (Suc (Suc 0)) ?w2 = (Inr response, cleanup s (start_attempt p s ?w2))"
    using attempt_loop_resolved [of "Suc (Suc 0)" s p response ?w2] budget go2 f2 ok by simp
  from first second third
  have run: "request p s v = (Inr response, cleanup s (start_attempt p s ?w2))"
    by (simp add: request_def)
  show "fst (request p s v) = Inr response"
    by (simp add: run)
  show "fetches (trace (snd (request p s v))) = fetches (trace v) @ replicate 3 (fetch_args p s)"
    by (simp add: run numeral_3_eq_3)
  show "sleeps (trace (snd (request p s v))) = sleeps (trace v) @ [500, 1000]"
    by (simp add: run)
qed

theorem backoff_schedule_witness:
  "http_method get_settings = GET
   \<and> \<not> aborted_at_start flaky 0 \<and> \<not> aborted_at_start flaky 1 \<and> \<not> aborted_at_start flaky 2
   \<and> fetch flaky 0 = Rejects TypeError \<and> fetch flaky 1 = Rejects TypeError
   \<and> fetch flaky 2 = Resolves ok_response
   \<and> status ok_response < 500 \<and> status ok_response \<noteq> 429
   \<and> fst (request flaky get_settings idle) = Inr ok_response
   \<and> length (fetches (trace (snd (request flaky get_settings idle)))) = 3
   \<and> sleeps (trace (snd (request flaky get_settings idle))) = [500, 1000]"
  using backoff_schedule [of get_settings False 0 TypeError idle 1 idle AbortError flaky idle ok_response]
  by (simp add: get_settings_def flaky_def ok_response_def idle_def present_def)

text \<open>
  C8. The delay given to \<open>setTimeout\<close> is \<open>timeoutMs\<close> when the descriptor has one and
  60000 ms otherwise, at every attempt. The theorem gives the whole trace of a call: it is
  a sequence of attempts, each of them (the listener when there is a signal, then) one
  new timer set with that delay, the call of \<open>fetch\<close> right after it, and the timer
  cleared at settlement; between two attempts there is the backoff wait and nothing else.
  So the timer of a retry is set after the timer of the attempt before it was cleared
  and after the wait, with the whole delay again: neither the earlier attempts nor the
  backoff are taken from it. The call ends with a last such attempt (its cleanup done a
  second time by the \<open>catch\<close> block when the \<open>try\<close> block threw after settling), or
  at the pre-check of an attempt whose signal reads aborted, before any timer is set.
\<close>

theorem effective_timeout_every_attempt:
  "(let effective = (case timeoutMs s of Some ms \<Rightarrow> ms | None \<Rightarrow> 60000);
        settle = ClearTimeout # (if present (abortSignal s) then [RemoveListener] else []);
        one = (if present (abortSignal s) then [AddListener] else [])
              @ [SetTimeout effective, Fetch (fetch_args p s)] @ settle
    in baseTimeout s = effective
       \<and> (\<exists>n tail. n < maxAttempts s
            \<and> trace (snd (request p s w)) =
                trace w @ concat (map (\<lambda>i. one @ [Sleep (500 * 2 ^ i)]) [0 ..< n]) @ tail
            \<and> (tail = [] \<and> present (abortSignal s) \<and> aborted_at_start p n
               \<or> tail = one
               \<or> tail = one @ settle)))"
proof -
  have effective: "baseTimeout s = (case timeoutMs s of Some ms \<Rightarrow> ms | None \<Rightarrow> 60000)"
    by (simp add: baseTimeout_def)
  from request_trace [of s p w] show ?thesis
    unfolding Let_def attempt_events_def settle_events_def effective [symmetric]
    by simp
qed

theorem effective_timeout_every_attempt_witness:
  "baseTimeout get_settings = 60000
   \<and> trace (snd (request flaky get_settings idle)) =
       [SetTimeout 60000, Fetch (fetch_args flaky get_settings), ClearTimeout, Sleep 500,
        SetTimeout 60000, Fetch (fetch_args flaky get_settings), ClearTimeout, Sleep 1000,
        SetTimeout 60000, Fetch (fetch_args flaky get_settings), ClearTimeout]
   \<and> baseTimeout (get_settings\<lparr>timeoutMs := Some 5000\<rparr>) = 5000
   \<and> request (steady (Rejects (DOMException ''AbortError'')) False False)
         (get_settings\<lparr>timeoutMs := Some 5000\<rparr>) idle =
       (Inl TimeoutError,
        \<lparr>activeRequests = 1,
         trace =
           [SetTimeout 5000,
            Fetch (fetch_args (steady (Rejects (DOMException ''AbortError'')) False False)
                     (get_settings\<lparr>timeoutMs := Some 5000\<rparr>)),
            ClearTimeout, Sleep 500,
            SetTimeout 5000,
            Fetch (fetch_args (steady (Rejects (DOMException ''AbortError'')) False False)
                     (get_settings\<lparr>timeoutMs := Some 5000\<rparr>)),
            ClearTimeout, Sleep 1000,
            SetTimeout 5000,
            Fetch (fetch_args (steady (Rejects (DOMException ''AbortError'')) False False)
                     (get_settings\<lparr>timeoutMs := Some 5000\<rparr>)),
            ClearTimeout]\<rparr>)"
  using effective_timeout_every_attempt [of get_settings flaky idle]
    effective_timeout_every_attempt
      [of "get_settings\<lparr>timeoutMs := Some 5000\<rparr>"
          "steady (Rejects (DOMException ''AbortError'')) False False" idle]
  by (simp add: request_def attempt_loop.simps maxAttempts_def baseTimeout_def get_settings_def
      flaky_def steady_def present_def try_block_def catch_block_def start_attempt_def
      cleanup_def emit_def sleep_def idle_def ok_response_def Let_def)

subsection \<open>Preparation of the request\<close>

text \<open>
  C7. The body and the headers are functions of the descriptor (and of \<open>defaults\<close> and
  \<open>JSON.stringify\<close>), and every transport call of one call to \<open>request\<close> is made with
  the same ones. The body is \<open>null\<close> for GET; for another method a \<open>FormData\<close> payload
  is the body as it is, and anything else is handed to \<open>JSON.stringify\<close>. The header
  \<open>Accept\<close> is set from the table of line 50. \<open>Content-Type: application/json\<close> is set
  exactly when the body is a JSON text (a string, which is never empty for a JSON text);
  in every other case, a multipart body among them, \<open>request\<close> leaves \<open>Content-Type\<close> as
  \<open>defaults\<close> has it, which for the \<open>defaults\<close> of line 36 is absent. No other
  header is touched.
\<close>

theorem request_preparation:
  "request_data p s =
     (if http_method s = GET then Null
      else case data s of
             FormData f \<Rightarrow> Form f
           | Record r \<Rightarrow> (case stringify p r of Some t \<Rightarrow> Text t | None \<Rightarrow> UndefinedBody)
           | Undefined \<Rightarrow> UndefinedBody)
   \<and> request_headers p s ''accept'' =
       Some (case accept s of json \<Rightarrow> ''application/json, text/html''
             | html \<Rightarrow> ''text/html'' | csv \<Rightarrow> ''text/csv'')
   \<and> request_headers p s ''content-type'' =
       (if \<exists>t. t \<noteq> [] \<and> request_data p s = Text t then Some ''application/json''
        else defaults_headers p ''content-type'')
   \<and> (\<forall>name. name \<noteq> ''accept'' \<and> name \<noteq> ''content-type'' \<longrightarrow>
         request_headers p s name = defaults_headers p name)
   \<and> ((\<exists>f. request_data p s = Form f) \<and> defaults_headers p = defaults \<longrightarrow>
         request_headers p s ''content-type'' = None)
   \<and> (\<exists>k. fetches (trace (snd (request p s w))) =
         fetches (trace w) @ replicate k
           \<lparr>init_url = url s, init_method = http_method s, init_body = request_data p s,
            init_headers = request_headers p s\<rparr>)"
proof (intro conjI)
  show "request_data p s =
     (if http_method s = GET then Null
      else case data s of
             FormData f \<Rightarrow> Form f
           | Record r \<Rightarrow> (case stringify p r of Some t \<Rightarrow> Text t | None \<Rightarrow> UndefinedBody)
           | Undefined \<Rightarrow> UndefinedBody)"
    by (simp add: request_data_def split: payload.splits)
  show "request_headers p s ''accept'' =
       Some (case accept s of json \<Rightarrow> ''application/json, text/html''
             | html \<Rightarrow> ''text/html'' | csv \<Rightarrow> ''text/csv'')"
    by (cases "accept s") (simp_all add: request_headers_def Let_def)
  show "request_headers p s ''content-type'' =
       (if \<exists>t. t \<noteq> [] \<and> request_data p s = Text t then Some ''application/json''
        else defaults_headers p ''content-type'')"
    by (cases "request_data p s") (simp_all add: request_headers_def Let_def)
  show "\<forall>name. name \<noteq> ''accept'' \<and> name \<noteq> ''content-type'' \<longrightarrow>
         request_headers p s name = defaults_headers p name"
    by (simp add: request_headers_def Let_def)
  show "(\<exists>f. request_data p s = Form f) \<and> defaults_headers p = defaults \<longrightarrow>
         request_headers p s ''content-type'' = None"
    by (auto simp: request_headers_def Let_def defaults_def)
  from request_fetches [of s p w]
  show "\<exists>k. fetches (trace (snd (request p s w))) =
         fetches (trace w) @ replicate k
           \<lparr>init_url = url s, init_method = http_method s, init_body = request_data p s,
            init_headers = request_headers p s\<rparr>"
    by (auto simp: fetch_args_def)
qed

theorem request_preparation_witness:
  "request_data flaky (post_settings\<lparr>data := FormData ()\<rparr>) = Form ()
   \<and> defaults_headers flaky = defaults
   \<and> request_headers flaky (post_settings\<lparr>data := FormData ()\<rparr>) ''content-type'' = None
   \<and> request_headers flaky (post_settings\<lparr>data := FormData ()\<rparr>) ''accept''
       = Some ''application/json, text/html''
   \<and> request_data flaky (post_settings\<lparr>data := Record ''{}''\<rparr>) = Text ''{}''
   \<and> request_headers flaky (post_settings\<lparr>data := Record ''{}''\<rparr>) ''content-type''
       = Some ''application/json''
   \<and> request_data flaky get_settings = Null
   \<and> request_headers flaky get_settings ''content-type'' = None
   \<and> request_headers flaky get_settings ''x-csrf-token'' = None"
  using request_preparation [of flaky "post_settings\<lparr>data := FormData ()\<rparr>" idle]
    request_preparation [of flaky "post_settings\<lparr>data := Record ''{}''\<rparr>" idle]
    request_preparation [of flaky get_settings idle]
  by (simp add: post_settings_def get_settings_def flaky_def defaults_def)

text \<open>
  C10. \<open>JSON.stringify(undefined)\<close> is \<open>undefined\<close>, not a string. So for a method
  other than GET whose descriptor has no \<open>data\<close>, the body is \<open>undefined\<close> and
  \<open>request\<close> sets \<open>Accept\<close> and nothing else; the transport call, made when the signal is
  not aborted at the start, carries no body and the \<open>Content-Type\<close> of \<open>defaults\<close>. In
  general \<open>request\<close> changes \<open>Content-Type\<close> only when the body is truthy and not a
  \<open>FormData\<close>, and then to \<open>application/json\<close>.
\<close>

theorem absent_payload_sends_no_body:
  "JSON_stringify (stringify p) (Undefined :: ('r, 'f) payload) = (UndefinedBody :: 'f body)
   \<and> (http_method s \<noteq> GET \<and> data s = Undefined \<longrightarrow>
        request_data p s = UndefinedBody
        \<and> request_headers p s = (defaults_headers p)(''accept'' \<mapsto> acceptType (accept s)))
   \<and> (http_method s \<noteq> GET \<and> data s = Undefined
        \<and> \<not> (present (abortSignal s) \<and> aborted_at_start p 0) \<longrightarrow>
        (\<exists>init. fetches (trace (snd (request p s w))) = fetches (trace w) @ [init]
           \<and> init_body init = UndefinedBody
           \<and> init_headers init ''content-type'' = defaults_headers p ''content-type''))
   \<and> (request_headers p s ''content-type'' \<noteq> defaults_headers p ''content-type'' \<longrightarrow>
        truthy (request_data p s) \<and> \<not> instanceof_FormData (request_data p s)
        \<and> request_headers p s ''content-type'' = Some ''application/json'')"
proof (intro conjI impI)
  show "JSON_stringify (stringify p) (Undefined :: ('r, 'f) payload) = (UndefinedBody :: 'f body)"
    by simp
next
  assume "http_method s \<noteq> GET \<and> data s = Undefined"
  then show "request_data p s = UndefinedBody"
    and "request_headers p s = (defaults_headers p)(''accept'' \<mapsto> acceptType (accept s))"
    by (simp_all add: request_data_def request_headers_def Let_def)
next
  assume absent: "http_method s \<noteq> GET \<and> data s = Undefined
        \<and> \<not> (present (abortSignal s) \<and> aborted_at_start p 0)"
  then have body: "request_data p s = UndefinedBody"
    by (simp add: request_data_def)
  from absent
  have "fetches (trace (snd (request p s w))) = fetches (trace w) @ [fetch_args p s]"
    by (simp add: request_not_GET(1))
  moreover have "init_body (fetch_args p s) = UndefinedBody"
    by (simp add: fetch_args_def body)
  moreover have "init_headers (fetch_args p s) ''content-type'' = defaults_headers p ''content-type''"
    by (simp add: fetch_args_def request_headers_def body Let_def)
  ultimately show "\<exists>init. fetches (trace (snd (request p s w))) = fetches (trace w) @ [init]
           \<and> init_body init = UndefinedBody
           \<and> init_headers init ''content-type'' = defaults_headers p ''content-type''"
    by blast
next
  assume added: "request_headers p s ''content-type'' \<noteq> defaults_headers p ''content-type''"
  then show "truthy (request_data p s)" and "\<not> instanceof_FormData (request_data p s)"
    and "request_headers p s ''content-type'' = Some ''application/json''"
    by (auto simp: request_headers_def Let_def split: if_splits)
qed

theorem absent_payload_sends_no_body_witness:
  "http_method post_settings \<noteq> GET \<and> data post_settings = Undefined
   \<and> \<not> (present (abortSignal post_settings) \<and> aborted_at_start flaky 0)
   \<and> request_data flaky post_settings = UndefinedBody
   \<and> request_headers flaky post_settings ''accept'' = Some ''application/json, text/html''
   \<and> request_headers flaky post_settings ''content-type'' = None
   \<and> map init_body (fetches (trace (snd (request flaky post_settings idle)))) = [UndefinedBody]"
  using absent_payload_sends_no_body [of flaky post_settings idle]
  by (auto simp: post_settings_def flaky_def idle_def defaults_def)

subsection \<open>The assertion\<close>

text \<open>
  C9. \<open>assertResponseError e\<close> returns exactly when \<open>e\<close> is an instance of
  \<open>ResponseError\<close>; for any other value it throws, and what it throws is \<open>e\<close> itself.
\<close>

theorem assertResponseError_returns_iff:
  "(assertResponseError e = Inr ()) = instanceof_ResponseError e
   \<and> instanceof_ResponseError e = (\<exists>m. e = Error (ResponseError m))
   \<and> (\<not> instanceof_ResponseError e \<longrightarrow> assertResponseError e = Inl e)"
  by (cases e rule: instanceof_ResponseError.cases) (simp_all add: assertResponseError_def)

theorem assertResponseError_returns_iff_witness:
  "\<not> instanceof_ResponseError (Error TimeoutError)
   \<and> assertResponseError (Error TimeoutError) = Inl (Error TimeoutError)
   \<and> assertResponseError (Error (ResponseError ''x'')) = Inr ()"
  using assertResponseError_returns_iff [of "Error TimeoutError"]
    assertResponseError_returns_iff [of "Error (ResponseError ''x'')"]
  by simp

end
